theory Spec2Isabelle
  imports Main
begin

section \<open>The node model\<close>

text \<open>
  The program is a subclass \<^verbatim>\<open>LuaCompiler\<close> of Python's \<^verbatim>\<open>ast.NodeTransformer\<close>. The trees
  it walks are those of Python's \<^verbatim>\<open>ast\<close> module; the node kinds the rules read or build
  are modelled here, with the fields in the order of each class's \<^verbatim>\<open>_fields\<close>.

  A field of a Python object can hold any object. Two places of the program depend on it
  and are modelled as the code has them: \<^verbatim>\<open>visit_For\<close> stores an expression node in the
  \<^verbatim>\<open>value\<close> field of a \<^verbatim>\<open>Constant\<close> (the constructor \<open>VNode\<close>), and \<^verbatim>\<open>visit_Return\<close>
  copies the \<^verbatim>\<open>value\<close> field of a \<^verbatim>\<open>Return\<close>, which is \<^verbatim>\<open>None\<close> for a bare return, into
  an \<^verbatim>\<open>Assign\<close> (so the value of an \<open>Assign\<close> is an option).

  Left out, as no rule reads them: the \<^verbatim>\<open>kind\<close> of a constant, type comments, and of a
  function definition everything but its name, the names of its parameters and its body.
  Expression and statement classes that the rules neither build nor tell apart from the
  ones below are not modelled.
\<close>

datatype expr_context = Load | Store | Del

datatype operator = Add | Sub | Mult | Div | Mod | Pow | FloorDiv

datatype unaryop = Invert | Not' | UAdd | USub

datatype cmpop = Eq | NotEq | Lt | LtE | Gt | GtE | Is | IsNot | In | NotIn

datatype expr =
    BinOp expr operator expr
  | UnaryOp unaryop expr
  | Compare expr "cmpop list" "expr list"
  | Call expr "expr list" "keyword list"
  | Constant cvalue
  | Name string expr_context
  | Tuple "expr list" expr_context
and keyword = Keyword "string option" expr
and cvalue = VInt int | VStr string | VBool bool | VNone | VNode expr

datatype stmt =
    FunctionDef string "string list" "stmt list"
  | Return "expr option"
  | Assign "expr list" "expr option"
  | AugAssign expr operator expr
  | For expr expr "stmt list" "stmt list"
  | While expr "stmt list" "stmt list"
  | If' expr "stmt list" "stmt list"
  | Expr expr
  | Pass

datatype module = Module "stmt list"

text \<open>
  The exceptions the program can raise: \<^verbatim>\<open>AttributeError\<close> for reading a field the node's
  class does not have, \<^verbatim>\<open>IndexError\<close> for indexing a list out of range, and the parser's
  \<^verbatim>\<open>SyntaxError\<close>. A computation that can raise returns \<open>error + 'a\<close>, \<open>Inl\<close> the
  exception.
\<close>

datatype error = SyntaxError | AttributeError | IndexError

definition then_do :: "error + 'a \<Rightarrow> ('a \<Rightarrow> error + 'b) \<Rightarrow> error + 'b" where
  "then_do r f = (case r of Inl e \<Rightarrow> Inl e | Inr x \<Rightarrow> f x)"

text \<open>
  What a \<^verbatim>\<open>visit_\<close> method returns for a statement: a node, or a list of nodes that
  \<^verbatim>\<open>generic_visit\<close> splices into the enclosing statement list.
\<close>

datatype rewrite = OneNode stmt | NodeList "stmt list"

text \<open>The transformer object: its only attribute is the scope stack.\<close>

record LuaCompiler =
  scope_stack :: "string list"

text \<open>\<^verbatim>\<open>__init__\<close>: the scope stack starts empty.\<close>

definition init :: LuaCompiler where
  "init = \<lparr>scope_stack = []\<rparr>"

section \<open>Expressions\<close>

text \<open>
  \<^verbatim>\<open>isinstance(e, ast.Str)\<close>: since Python 3.8 the parser builds \<^verbatim>\<open>Constant\<close> nodes and
  \<^verbatim>\<open>ast.Str\<close> is a compatibility class whose instance check holds for a \<^verbatim>\<open>Constant\<close> with
  a \<^verbatim>\<open>str\<close> value.
\<close>

fun isinstance_Str :: "expr \<Rightarrow> bool" where
  "isinstance_Str (Constant (VStr s)) = True"
| "isinstance_Str e = False"

text \<open>
  \<^verbatim>\<open>visit\<close> on an expression dispatches on the node's class: \<^verbatim>\<open>visit_BinOp\<close>,
  \<^verbatim>\<open>visit_UnaryOp\<close>, \<^verbatim>\<open>visit_Compare\<close> and \<^verbatim>\<open>visit_Call\<close> are the program's, every other
  class goes to \<^verbatim>\<open>generic_visit\<close>. Each of the four ends in \<^verbatim>\<open>generic_visit(node)\<close> on
  the node it has updated in place. \<^verbatim>\<open>generic_visit\<close> visits the fields in order and puts
  the results back; operator and context nodes have no fields and no rule, so visiting
  them changes nothing.
\<close>

fun visit_expr :: "LuaCompiler \<Rightarrow> expr \<Rightarrow> error + expr"
  and generic_visit_expr :: "LuaCompiler \<Rightarrow> expr \<Rightarrow> error + expr"
  and visit_exprs :: "LuaCompiler \<Rightarrow> expr list \<Rightarrow> error + expr list"
  and visit_keywords :: "LuaCompiler \<Rightarrow> keyword list \<Rightarrow> error + keyword list"
where
  "visit_expr self (BinOp l op r) =
     generic_visit_expr self (BinOp l (if op = FloorDiv then Div else op) r)"
| "visit_expr self (UnaryOp op e) =
     generic_visit_expr self (UnaryOp (if op = Not' then Not' else op) e)"
| "visit_expr self (Compare l ops cs) =
     (case ops of
        [] \<Rightarrow> Inl IndexError
      | op0 # rest \<Rightarrow>
          generic_visit_expr self (Compare l ((if op0 = In then Eq else op0) # rest) cs))"
| "visit_expr self (Call f args kws) =
     (case f of
        Name n c \<Rightarrow>
          (if n = ''len'' then
             (case args of
                [] \<Rightarrow> Inl IndexError
              | a # _ \<Rightarrow>
                  if isinstance_Str a
                  then generic_visit_expr self (Call (Name ''string.len'' c) args kws)
                  else generic_visit_expr self (Call (Name ''table.getn'' c) args kws))
           else generic_visit_expr self (Call f args kws))
      | _ \<Rightarrow> generic_visit_expr self (Call f args kws))"
| "visit_expr self (Constant v) = generic_visit_expr self (Constant v)"
| "visit_expr self (Name n c) = generic_visit_expr self (Name n c)"
| "visit_expr self (Tuple es c) = generic_visit_expr self (Tuple es c)"
| "generic_visit_expr self (BinOp l op r) =
     then_do (visit_expr self l) (\<lambda>l'.
     then_do (visit_expr self r) (\<lambda>r'. Inr (BinOp l' op r')))"
| "generic_visit_expr self (UnaryOp op e) =
     then_do (visit_expr self e) (\<lambda>e'. Inr (UnaryOp op e'))"
| "generic_visit_expr self (Compare l ops cs) =
     then_do (visit_expr self l) (\<lambda>l'.
     then_do (visit_exprs self cs) (\<lambda>cs'. Inr (Compare l' ops cs')))"
| "generic_visit_expr self (Call f args kws) =
     then_do (visit_expr self f) (\<lambda>f'.
     then_do (visit_exprs self args) (\<lambda>args'.
     then_do (visit_keywords self kws) (\<lambda>kws'. Inr (Call f' args' kws'))))"
| "generic_visit_expr self (Constant v) =
     (case v of
        VNode e \<Rightarrow> then_do (visit_expr self e) (\<lambda>e'. Inr (Constant (VNode e')))
      | _ \<Rightarrow> Inr (Constant v))"
| "generic_visit_expr self (Name n c) = Inr (Name n c)"
| "generic_visit_expr self (Tuple es c) =
     then_do (visit_exprs self es) (\<lambda>es'. Inr (Tuple es' c))"
| "visit_exprs self [] = Inr []"
| "visit_exprs self (e # es) =
     then_do (visit_expr self e) (\<lambda>e'.
     then_do (visit_exprs self es) (\<lambda>es'. Inr (e' # es')))"
| "visit_keywords self [] = Inr []"
| "visit_keywords self (Keyword k e # kws) =
     then_do (visit_expr self e) (\<lambda>e'.
     then_do (visit_keywords self kws) (\<lambda>kws'. Inr (Keyword k e' # kws')))"

section \<open>The statement rules\<close>

text \<open>
  Reading a field: \<^verbatim>\<open>node.target.id\<close>, \<^verbatim>\<open>node.iter.args\<close>, \<^verbatim>\<open>orelse.test\<close>,
  \<^verbatim>\<open>orelse.body\<close> and \<^verbatim>\<open>current_if.orelse\<close> raise \<^verbatim>\<open>AttributeError\<close> on a node whose
  class has no such field; \<^verbatim>\<open>args[i]\<close> raises \<^verbatim>\<open>IndexError\<close> out of range.
\<close>

fun get_id :: "expr \<Rightarrow> error + string" where
  "get_id (Name n c) = Inr n"
| "get_id e = Inl AttributeError"

fun get_args :: "expr \<Rightarrow> error + expr list" where
  "get_args (Call f args kws) = Inr args"
| "get_args e = Inl AttributeError"

definition index :: "'a list \<Rightarrow> nat \<Rightarrow> error + 'a" where
  "index xs i = (if i < length xs then Inr (xs ! i) else Inl IndexError)"

fun get_test :: "stmt \<Rightarrow> error + expr" where
  "get_test (While t b e) = Inr t"
| "get_test (If' t b e) = Inr t"
| "get_test s = Inl AttributeError"

fun get_body :: "stmt \<Rightarrow> error + stmt list" where
  "get_body (FunctionDef n a b) = Inr b"
| "get_body (For t i b e) = Inr b"
| "get_body (While t b e) = Inr b"
| "get_body (If' t b e) = Inr b"
| "get_body s = Inl AttributeError"

fun get_orelse :: "stmt \<Rightarrow> error + stmt list" where
  "get_orelse (For t i b e) = Inr e"
| "get_orelse (While t b e) = Inr e"
| "get_orelse (If' t b e) = Inr e"
| "get_orelse s = Inl AttributeError"

fun set_orelse :: "stmt \<Rightarrow> stmt list \<Rightarrow> stmt" where
  "set_orelse (For t i b e) e' = For t i b e'"
| "set_orelse (While t b e) e' = While t b e'"
| "set_orelse (If' t b e) e' = If' t b e'"
| "set_orelse s e' = s"

fun isinstance_If :: "stmt \<Rightarrow> bool" where
  "isinstance_If (If' t b e) = True"
| "isinstance_If s = False"

text \<open>
  The loop of \<^verbatim>\<open>visit_If\<close> over \<^verbatim>\<open>node.orelse\<close>. The variable \<^verbatim>\<open>current_if\<close> points into the
  tree under construction and the loop appends to the \<^verbatim>\<open>orelse\<close> list of the node it points
  to. \<open>chain cur es\<close> is the node \<open>cur\<close> after the iterations for the entries \<open>es\<close> have
  run with \<^verbatim>\<open>current_if\<close> pointing to it:
  \<^item> for an entry that is an \<^verbatim>\<open>If\<close>, the entry is appended to \<^verbatim>\<open>current_if.orelse\<close> and
    \<^verbatim>\<open>current_if\<close> moves to the entry, which the later iterations update;
  \<^item> for any other entry a new \<^verbatim>\<open>If\<close> is built from the entry's \<^verbatim>\<open>test\<close> and \<^verbatim>\<open>body\<close> and
    appended, and \<^verbatim>\<open>current_if\<close> moves to \<^verbatim>\<open>current_if.orelse[0]\<close>, the first element of
    the list (the new node only when the list was empty before).
\<close>

fun chain :: "stmt \<Rightarrow> stmt list \<Rightarrow> error + stmt" where
  "chain cur [] = Inr cur"
| "chain cur (e # es) =
     (if isinstance_If e then
        then_do (get_orelse cur) (\<lambda>old.
        then_do (chain e es) (\<lambda>e'.
        Inr (set_orelse cur (old @ [e']))))
      else
        then_do (get_orelse cur) (\<lambda>old.
        then_do (get_test e) (\<lambda>t.
        then_do (get_body e) (\<lambda>b.
          (case old of
             [] \<Rightarrow>
               then_do (chain (If' t b []) es) (\<lambda>new'.
               Inr (set_orelse cur [new']))
           | first # others \<Rightarrow>
               then_do (chain first es) (\<lambda>first'.
               Inr (set_orelse cur (first' # others @ [If' t b []]))))))))"

definition visit_If :: "LuaCompiler \<Rightarrow> expr \<Rightarrow> stmt list \<Rightarrow> stmt list \<Rightarrow> error + rewrite" where
  "visit_If self test body orelse =
     (if length orelse = 0 then Inr (OneNode (If' test body orelse))
      else then_do (chain (If' test body []) orelse) (\<lambda>if_stmt. Inr (OneNode if_stmt)))"

text \<open>
  \<^verbatim>\<open>visit_For\<close>. The \<^verbatim>\<open>orelse\<close> of the loop is not read. \<^verbatim>\<open>step\<close> is a node or \<^verbatim>\<open>None\<close>, and
  a node is true in \<^verbatim>\<open>if step:\<close>.
\<close>

definition visit_For :: "LuaCompiler \<Rightarrow> expr \<Rightarrow> expr \<Rightarrow> stmt list \<Rightarrow> stmt list \<Rightarrow> error + rewrite" where
  "visit_For self target iter body orelse =
     then_do (get_id target) (\<lambda>target.
     then_do (get_args iter) (\<lambda>args.
     then_do (index args 0) (\<lambda>arg0.
     then_do (index args 1) (\<lambda>arg1.
     then_do (if length args > 2 then then_do (index args 2) (\<lambda>arg2. Inr (Some (Constant (VNode arg2))))
              else Inr None) (\<lambda>step.
       let start = Constant (VNode arg0);
           stop = Constant (VNode arg1);
           init_assign = Assign [Name target Store] (Some start);
           loop_condition = Compare (Name target Load) [Lt] [stop];
           loop_body = body @
             [case step of
                Some s \<Rightarrow> Assign [Name target Store] (Some (BinOp (Name target Load) Add s))
              | None \<Rightarrow> AugAssign (Name target Store) Add (Constant (VInt 1))];
           while_loop = While loop_condition loop_body []
       in Inr (NodeList [init_assign, while_loop]))))))"

text \<open>
  \<^verbatim>\<open>visit_Return\<close>: the only reader of the scope stack; \<^verbatim>\<open>scope_stack[-1]\<close> is its last
  element.
\<close>

definition visit_Return :: "LuaCompiler \<Rightarrow> expr option \<Rightarrow> error + rewrite" where
  "visit_Return self v =
     (if scope_stack self = [] then Inr (OneNode (Return v))
      else if last (scope_stack self) = ''function'' then
        Inr (NodeList [Assign [Name ''_retval'' Store] v, Return (Some (Name ''_retval'' Load))])
      else Inr (OneNode (Return v)))"

text \<open>The statement \<^verbatim>\<open>visit_FunctionDef\<close> inserts at the head of every function body.\<close>

definition extra_stmt :: stmt where
  "extra_stmt =
     Expr (Call (Name ''print'' Load) [Constant (VStr ''This is an additional statement.'')] [])"

text \<open>The multi-target branch of \<^verbatim>\<open>visit_Assign\<close>: one \<^verbatim>\<open>Assign\<close> per target, in order.\<close>

definition assign_stmts :: "expr list \<Rightarrow> expr option \<Rightarrow> stmt list" where
  "assign_stmts targets v = map (\<lambda>target. Assign [target] v) targets"

section \<open>The traversal\<close>

text \<open>
  A weight on statements for the termination of the traversal: \<^verbatim>\<open>visit_FunctionDef\<close>
  visits a body that is one statement longer than the one it was given, so a function
  definition weighs more than the statement inserted into it.
\<close>

fun wt :: "stmt \<Rightarrow> nat" and wts :: "stmt list \<Rightarrow> nat" where
  "wt (FunctionDef n a b) = 10 + wts b"
| "wt (For t i b e) = 2 + wts b + wts e"
| "wt (While t b e) = 2 + wts b + wts e"
| "wt (If' t b e) = 2 + wts b + wts e"
| "wt (Return v) = 2"
| "wt (Assign ts v) = 2"
| "wt (AugAssign t op v) = 2"
| "wt (Expr e) = 2"
| "wt Pass = 2"
| "wts [] = 0"
| "wts (s # ss) = 1 + wt s + wts ss"

fun gwt :: "stmt \<Rightarrow> nat" where
  "gwt (FunctionDef n a b) = 1 + wts b"
| "gwt (For t i b e) = 1 + wts b + wts e"
| "gwt (While t b e) = 1 + wts b + wts e"
| "gwt (If' t b e) = 1 + wts b + wts e"
| "gwt s = 1"

text \<open>
  \<^verbatim>\<open>visit\<close> on a statement dispatches on the node's class: \<^verbatim>\<open>visit_FunctionDef\<close>,
  \<^verbatim>\<open>visit_If\<close>, \<^verbatim>\<open>visit_For\<close>, \<^verbatim>\<open>visit_Assign\<close> and \<^verbatim>\<open>visit_Return\<close> are the program's,
  every other class goes to \<^verbatim>\<open>generic_visit\<close>. Of the five only \<^verbatim>\<open>visit_FunctionDef\<close> and the
  single-target branch of \<^verbatim>\<open>visit_Assign\<close> call \<^verbatim>\<open>generic_visit\<close>.

  \<^verbatim>\<open>NodeTransformer.generic_visit\<close> visits every field that holds a node and every node
  of a field that holds a list. For a list it collects the results in a new list: a node
  is appended, a list is spliced in as it is, without visiting its elements
  (\<open>visit_stmts\<close>). The transformer object is read and never assigned to, so it is passed
  down and not returned.
\<close>

function visit_stmt :: "LuaCompiler \<Rightarrow> stmt \<Rightarrow> error + rewrite"
  and generic_visit_stmt :: "LuaCompiler \<Rightarrow> stmt \<Rightarrow> error + stmt"
  and visit_stmts :: "LuaCompiler \<Rightarrow> stmt list \<Rightarrow> error + stmt list"
where
  "visit_stmt self (FunctionDef n a b) =
     then_do (generic_visit_stmt self (FunctionDef n a (extra_stmt # b))) (\<lambda>node. Inr (OneNode node))"
| "visit_stmt self (If' t b e) = visit_If self t b e"
| "visit_stmt self (For t i b e) = visit_For self t i b e"
| "visit_stmt self (Assign ts v) =
     (if length ts > 1 then Inr (NodeList (assign_stmts ts v))
      else then_do (generic_visit_stmt self (Assign ts v)) (\<lambda>node. Inr (OneNode node)))"
| "visit_stmt self (Return v) = visit_Return self v"
| "visit_stmt self (AugAssign t op v) =
     then_do (generic_visit_stmt self (AugAssign t op v)) (\<lambda>node. Inr (OneNode node))"
| "visit_stmt self (While t b e) =
     then_do (generic_visit_stmt self (While t b e)) (\<lambda>node. Inr (OneNode node))"
| "visit_stmt self (Expr v) =
     then_do (generic_visit_stmt self (Expr v)) (\<lambda>node. Inr (OneNode node))"
| "visit_stmt self Pass =
     then_do (generic_visit_stmt self Pass) (\<lambda>node. Inr (OneNode node))"
| "generic_visit_stmt self (FunctionDef n a b) =
     then_do (visit_stmts self b) (\<lambda>b'. Inr (FunctionDef n a b'))"
| "generic_visit_stmt self (Return v) =
     (case v of
        None \<Rightarrow> Inr (Return None)
      | Some x \<Rightarrow> then_do (visit_expr self x) (\<lambda>x'. Inr (Return (Some x'))))"
| "generic_visit_stmt self (Assign ts v) =
     then_do (visit_exprs self ts) (\<lambda>ts'.
       (case v of
          None \<Rightarrow> Inr (Assign ts' None)
        | Some x \<Rightarrow> then_do (visit_expr self x) (\<lambda>x'. Inr (Assign ts' (Some x')))))"
| "generic_visit_stmt self (AugAssign t op v) =
     then_do (visit_expr self t) (\<lambda>t'.
     then_do (visit_expr self v) (\<lambda>v'. Inr (AugAssign t' op v')))"
| "generic_visit_stmt self (For t i b e) =
     then_do (visit_expr self t) (\<lambda>t'.
     then_do (visit_expr self i) (\<lambda>i'.
     then_do (visit_stmts self b) (\<lambda>b'.
     then_do (visit_stmts self e) (\<lambda>e'. Inr (For t' i' b' e')))))"
| "generic_visit_stmt self (While t b e) =
     then_do (visit_expr self t) (\<lambda>t'.
     then_do (visit_stmts self b) (\<lambda>b'.
     then_do (visit_stmts self e) (\<lambda>e'. Inr (While t' b' e'))))"
| "generic_visit_stmt self (If' t b e) =
     then_do (visit_expr self t) (\<lambda>t'.
     then_do (visit_stmts self b) (\<lambda>b'.
     then_do (visit_stmts self e) (\<lambda>e'. Inr (If' t' b' e'))))"
| "generic_visit_stmt self (Expr v) =
     then_do (visit_expr self v) (\<lambda>v'. Inr (Expr v'))"
| "generic_visit_stmt self Pass = Inr Pass"
| "visit_stmts self [] = Inr []"
| "visit_stmts self (s # ss) =
     then_do (visit_stmt self s) (\<lambda>r.
     then_do (visit_stmts self ss) (\<lambda>ss'.
       Inr ((case r of OneNode node \<Rightarrow> [node] | NodeList nodes \<Rightarrow> nodes) @ ss')))"
  by pat_completeness auto
termination
  by (relation "measure (\<lambda>x. case x of
          Inl (self, s) \<Rightarrow> wt s
        | Inr (Inl (self, s)) \<Rightarrow> gwt s
        | Inr (Inr (self, ss)) \<Rightarrow> wts ss)")
     (auto simp: extra_stmt_def)

text \<open>The root: a \<^verbatim>\<open>Module\<close> has no rule, so \<^verbatim>\<open>visit\<close> is \<^verbatim>\<open>generic_visit\<close> on it.\<close>

fun visit_module :: "LuaCompiler \<Rightarrow> module \<Rightarrow> error + module" where
  "visit_module self (Module body) =
     then_do (visit_stmts self body) (\<lambda>body'. Inr (Module body'))"

section \<open>The driver\<close>






section \<open>The multi-target assignment on a store of objects\<close>

text \<open>
  The trees above are values, and a value cannot tell a shared node from a copy. For the
  one rule that hands the same object to several new nodes, the multi-target branch of
  \<^verbatim>\<open>visit_Assign\<close>, the objects are modelled with their identity: a store is a list of
  objects, a reference is a position in it, and \<^verbatim>\<open>ast.Assign(...)\<close> allocates at the end.
  The fields of an \<^verbatim>\<open>Assign\<close> object hold references: \<^verbatim>\<open>targets\<close> a list of them and
  \<^verbatim>\<open>value\<close> one, to an expression node or to \<^verbatim>\<open>None\<close>. Expression nodes are kept whole,
  one object each.
\<close>

type_synonym ref = nat

datatype obj = Expr_obj expr | None_obj | Assign_obj "ref list" ref

type_synonym store = "obj list"

definition alloc :: "store \<Rightarrow> obj \<Rightarrow> ref \<times> store" where
  "alloc h x = (length h, h @ [x])"

text \<open>
  The loop \<^verbatim>\<open>for target in node.targets\<close>: each iteration builds
  \<^verbatim>\<open>ast.Assign(targets=[target], value=node.value)\<close>, passing the reference \<^verbatim>\<open>node.value\<close>
  on, and appends the new object's reference to \<^verbatim>\<open>assign_stmts\<close>.
\<close>

fun split_targets :: "store \<Rightarrow> ref list \<Rightarrow> ref \<Rightarrow> ref list \<times> store" where
  "split_targets h [] v = ([], h)"
| "split_targets h (target # targets) v =
     (let (assign_stmt, h1) = alloc h (Assign_obj [target] v);
          (rest, h2) = split_targets h1 targets v
      in (assign_stmt # rest, h2))"

text \<open>
  The branch \<^verbatim>\<open>len(node.targets) > 1\<close> of \<^verbatim>\<open>visit_Assign\<close> on the store: the references of
  the new statements and the new store. \<open>None\<close> where \<open>node\<close> is not an \<^verbatim>\<open>Assign\<close> object
  with more than one target (the other branch is \<^verbatim>\<open>generic_visit\<close>, modelled on trees).
\<close>

definition visit_Assign_store :: "store \<Rightarrow> ref \<Rightarrow> (ref list \<times> store) option" where
  "visit_Assign_store h node =
     (if node < length h then
        (case h ! node of
           Assign_obj targets v \<Rightarrow>
             if length targets > 1 then Some (split_targets h targets v) else None
         | _ \<Rightarrow> None)
      else None)"

text \<open>Reading the tree of an object off the store.\<close>

definition expr_of :: "store \<Rightarrow> ref \<Rightarrow> expr option" where
  "expr_of h r =
     (if r < length h then (case h ! r of Expr_obj e \<Rightarrow> Some e | _ \<Rightarrow> None) else None)"

definition value_of :: "store \<Rightarrow> ref \<Rightarrow> expr option option" where
  "value_of h r =
     (if r < length h then
        (case h ! r of Expr_obj e \<Rightarrow> Some (Some e) | None_obj \<Rightarrow> Some None | _ \<Rightarrow> None)
      else None)"

definition stmt_of :: "store \<Rightarrow> ref \<Rightarrow> stmt option" where
  "stmt_of h r =
     (if r < length h then
        (case h ! r of
           Assign_obj targets v \<Rightarrow>
             (case (those (map (expr_of h) targets), value_of h v) of
                (Some es, Some x) \<Rightarrow> Some (Assign es x)
              | _ \<Rightarrow> None)
         | _ \<Rightarrow> None)
      else None)"

section \<open>Basic facts\<close>

lemma then_do_Inl [simp]: "then_do (Inl e) f = Inl e"
  by (simp add: then_do_def)

lemma then_do_Inr [simp]: "then_do (Inr x) f = f x"
  by (simp add: then_do_def)

lemma then_do_eq_Inr: "then_do r f = Inr y \<longleftrightarrow> (\<exists>x. r = Inr x \<and> f x = Inr y)"
  by (cases r) simp_all


section \<open>Calls of the length function\<close>

text \<open>
  C9. A call whose callee is the name \<^verbatim>\<open>len\<close> and that has a first argument \<open>a\<close> gets the
  callee name \<^verbatim>\<open>string.len\<close> when \<open>a\<close> is a string literal and \<^verbatim>\<open>table.getn\<close> when \<open>a\<close> is
  any other node; the context of the name, the arguments and the keywords are those the
  default traversal returns. A call whose callee is any other name keeps its callee: the
  rule changes nothing of its own and the result is the call with its arguments and
  keywords traversed.
\<close>

theorem visit_Call_len:
  "visit_expr self (Call (Name ''len'' c) (a # as) kws) =
     then_do (visit_exprs self (a # as)) (\<lambda>args'.
     then_do (visit_keywords self kws) (\<lambda>kws'.
       Inr (Call (Name (if isinstance_Str a then ''string.len'' else ''table.getn'') c) args' kws')))
   \<and> (n \<noteq> ''len'' \<longrightarrow>
        visit_expr self (Call (Name n c) args kws) =
          then_do (visit_exprs self args) (\<lambda>args'.
          then_do (visit_keywords self kws) (\<lambda>kws'. Inr (Call (Name n c) args' kws'))))"
  by simp

theorem visit_Call_len_witness:
  "visit_expr init (Call (Name ''len'' Load) [Constant (VStr ''ab'')] []) =
     Inr (Call (Name ''string.len'' Load) [Constant (VStr ''ab'')] [])
   \<and> visit_expr init (Call (Name ''len'' Load) [Name ''xs'' Load] []) =
     Inr (Call (Name ''table.getn'' Load) [Name ''xs'' Load] [])
   \<and> ''print'' \<noteq> ''len''
   \<and> visit_expr init (Call (Name ''print'' Load) [Name ''xs'' Load] []) =
     Inr (Call (Name ''print'' Load) [Name ''xs'' Load] [])"
  using visit_Call_len [of init Load "Constant (VStr ''ab'')" "[]" "[]" "''print''" "[Name ''xs'' Load]"]
    visit_Call_len [of init Load "Name ''xs'' Load" "[]" "[]" "''print''" "[Name ''xs'' Load]"]
  by simp

text \<open>
  C10. A call whose callee is the name \<^verbatim>\<open>len\<close> and that has no argument raises
  \<^verbatim>\<open>IndexError\<close>: the rule reads \<^verbatim>\<open>node.args[0]\<close> before anything else. The exception is
  not caught by the traversal, so the statement holding the call raises it too.
\<close>

theorem visit_Call_len_no_argument:
  "visit_expr self (Call (Name ''len'' c) [] kws) = Inl IndexError
   \<and> visit_stmt self (Expr (Call (Name ''len'' c) [] kws)) = Inl IndexError"
  by simp

section \<open>Return statements\<close>

text \<open>
  C3. When the scope stack is not empty and its innermost (last) frame is
  \<^verbatim>\<open>function\<close>, a \<^verbatim>\<open>Return\<close> is rewritten to exactly two statements: the assignment of
  the returned value to the name \<^verbatim>\<open>_retval\<close>, then the return of that name. When the scope
  stack is empty the node is returned as it is.
\<close>

theorem visit_Return_scope:
  "(scope_stack self \<noteq> [] \<and> last (scope_stack self) = ''function'' \<longrightarrow>
      visit_stmt self (Return v) =
        Inr (NodeList [Assign [Name ''_retval'' Store] v, Return (Some (Name ''_retval'' Load))]))
   \<and> (scope_stack self = [] \<longrightarrow> visit_stmt self (Return v) = Inr (OneNode (Return v)))"
  by (simp add: visit_Return_def)

theorem visit_Return_scope_witness:
  "scope_stack \<lparr>scope_stack = [''module'', ''function'']\<rparr> \<noteq> []
   \<and> last (scope_stack \<lparr>scope_stack = [''module'', ''function'']\<rparr>) = ''function''
   \<and> visit_stmt \<lparr>scope_stack = [''module'', ''function'']\<rparr> (Return (Some (Name ''x'' Load))) =
       Inr (NodeList [Assign [Name ''_retval'' Store] (Some (Name ''x'' Load)),
                      Return (Some (Name ''_retval'' Load))])
   \<and> scope_stack init = []
   \<and> visit_stmt init (Return (Some (Name ''x'' Load))) = Inr (OneNode (Return (Some (Name ''x'' Load))))"
  using visit_Return_scope [of "\<lparr>scope_stack = [''module'', ''function'']\<rparr>" "Some (Name ''x'' Load)"]
    visit_Return_scope [of init "Some (Name ''x'' Load)"]
  by (simp add: init_def)

section \<open>For loops\<close>

lemma Constant_VNode_neq: "Constant (VNode e) \<noteq> e"
proof
  assume "Constant (VNode e) = e"
  then have "size (Constant (VNode e)) = size e"
    by simp
  then show False
    by simp
qed

text \<open>
  C1. For a \<^verbatim>\<open>For\<close> whose target is the name \<open>v\<close> and whose iterable is a call with the two
  arguments \<open>start\<close> and \<open>stop\<close>, the rule returns two statements: the assignment to \<open>v\<close>
  and a \<^verbatim>\<open>While\<close> on \<open>v < ...\<close> whose body is the loop body followed by \<open>v += 1\<close>; with a
  third argument \<open>s\<close> the appended statement is the assignment of \<open>v + ...\<close> to \<open>v\<close>. The
  value assigned, the right-hand side of the comparison and the right operand of the
  addition are not the argument expressions: each is a new \<^verbatim>\<open>Constant\<close> node whose
  \<^verbatim>\<open>value\<close> field holds the argument expression, a node different from the expression.
\<close>

theorem visit_For_range:
  "visit_stmt self (For (Name v c) (Call f [start, stop] kws) body orelse) =
     Inr (NodeList
       [Assign [Name v Store] (Some (Constant (VNode start))),
        While (Compare (Name v Load) [Lt] [Constant (VNode stop)])
          (body @ [AugAssign (Name v Store) Add (Constant (VInt 1))]) []])
   \<and> visit_stmt self (For (Name v c) (Call f [start, stop, s] kws) body orelse) =
     Inr (NodeList
       [Assign [Name v Store] (Some (Constant (VNode start))),
        While (Compare (Name v Load) [Lt] [Constant (VNode stop)])
          (body @ [Assign [Name v Store] (Some (BinOp (Name v Load) Add (Constant (VNode s))))]) []])
   \<and> Constant (VNode start) \<noteq> start
   \<and> Constant (VNode stop) \<noteq> stop
   \<and> Constant (VNode s) \<noteq> s"
  by (simp add: visit_For_def index_def Constant_VNode_neq)

text \<open>
  C7. A list that a rule returns is spliced into the enclosing statement list as it is:
  its elements are not visited, and neither \<^verbatim>\<open>visit_For\<close> nor the multi-target branch of
  \<^verbatim>\<open>visit_Assign\<close> visits the children of its node. The body of a \<^verbatim>\<open>For\<close> therefore reaches
  the \<^verbatim>\<open>While\<close> verbatim, and the value of a multi-target \<^verbatim>\<open>Assign\<close> reaches every new
  \<^verbatim>\<open>Assign\<close> verbatim: a floor division there stays a floor division, while the same
  statement outside of a loop gets the division operator.
\<close>

theorem expansion_not_visited:
  "visit_stmts self [For (Name v c) (Call f [start, stop] kws) body orelse] =
     Inr [Assign [Name v Store] (Some (Constant (VNode start))),
          While (Compare (Name v Load) [Lt] [Constant (VNode stop)])
            (body @ [AugAssign (Name v Store) Add (Constant (VInt 1))]) []]
   \<and> visit_stmts self [Assign [t1, t2] value] = Inr [Assign [t1] value, Assign [t2] value]
   \<and> visit_stmts init
        [For (Name ''i'' Store) (Call (Name ''range'' Load) [Constant (VInt 0), Constant (VInt 3)] [])
           [Expr (BinOp (Name ''a'' Load) FloorDiv (Name ''b'' Load))] []] =
     Inr [Assign [Name ''i'' Store] (Some (Constant (VNode (Constant (VInt 0))))),
          While (Compare (Name ''i'' Load) [Lt] [Constant (VNode (Constant (VInt 3)))])
            [Expr (BinOp (Name ''a'' Load) FloorDiv (Name ''b'' Load)),
             AugAssign (Name ''i'' Store) Add (Constant (VInt 1))] []]
   \<and> visit_stmts init [Expr (BinOp (Name ''a'' Load) FloorDiv (Name ''b'' Load))] =
     Inr [Expr (BinOp (Name ''a'' Load) Div (Name ''b'' Load))]"
  by (simp add: visit_For_def index_def assign_stmts_def)

section \<open>The scope stack\<close>

text \<open>
  C4. The transformer is created with an empty scope stack and no rule assigns to it:
  entering the body of a \<^verbatim>\<open>FunctionDef\<close>, \<^verbatim>\<open>For\<close> or \<^verbatim>\<open>While\<close> pushes nothing. A
  \<^verbatim>\<open>Return\<close> in a function body is therefore processed with the empty stack and stays the
  one statement it was, where the frame \<^verbatim>\<open>function\<close> on top of the stack would have made
  two statements of it.
\<close>

theorem scope_stack_stays_empty:
  "scope_stack init = []
   \<and> visit_module init (Module [FunctionDef f a [Return v]]) =
       Inr (Module [FunctionDef f a [extra_stmt, Return v]])
   \<and> visit_stmt \<lparr>scope_stack = [''function'']\<rparr> (Return v) =
       Inr (NodeList [Assign [Name ''_retval'' Store] v, Return (Some (Name ''_retval'' Load))])"
  by (simp add: init_def visit_Return_def extra_stmt_def)

section \<open>Assignments with several targets\<close>

lemma split_targets_closed:
  "split_targets h targets v =
     ([length h ..< length h + length targets], h @ map (\<lambda>t. Assign_obj [t] v) targets)"
proof (induction targets arbitrary: h)
  case Nil
  then show ?case by simp
next
  case (Cons t ts)
  have "[length h..<length h + length (t # ts)] = length h # [Suc (length h)..<Suc (length h) + length ts]"
    using upt_conv_Cons [of "length h" "length h + Suc (length ts)"] by simp
  then show ?case
    using Cons.IH [of "h @ [Assign_obj [t] v]"] by (simp add: alloc_def)
qed

lemma expr_of_append: "r < length h \<Longrightarrow> expr_of (h @ h') r = expr_of h r"
  by (simp add: expr_of_def nth_append)

lemma value_of_append: "r < length h \<Longrightarrow> value_of (h @ h') r = value_of h r"
  by (simp add: value_of_def nth_append)

lemma those_map_length: "those (map f xs) = Some ys \<Longrightarrow> length ys = length xs"
  by (induction xs arbitrary: ys) (auto split: option.splits)

lemma those_map_nth:
  "those (map f xs) = Some ys \<Longrightarrow> i < length xs \<Longrightarrow> f (xs ! i) = Some (ys ! i)"
proof (induction xs arbitrary: ys i)
  case Nil
  then show ?case by simp
next
  case (Cons x xs)
  then show ?case
    by (cases i) (auto split: option.splits)
qed

lemma stmt_of_new:
  assumes "those (map (expr_of h) trefs) = Some es" "value_of h vref = Some x" "i < length trefs"
  shows "stmt_of (h @ map (\<lambda>t. Assign_obj [t] vref) trefs) (length h + i) = Some (Assign [es ! i] x)"
proof -
  have v: "vref < length h"
    using assms(2) by (simp add: value_of_def split: if_splits)
  have e: "expr_of h (trefs ! i) = Some (es ! i)"
    using those_map_nth [OF assms(1) assms(3)] by simp
  then have t: "trefs ! i < length h"
    by (simp add: expr_of_def split: if_splits)
  show ?thesis
    using assms(2,3) e v t
    by (simp add: stmt_of_def nth_append expr_of_append value_of_append)
qed


lemma those_map_eqI:
  "length ys = length xs \<Longrightarrow> (\<And>i. i < length xs \<Longrightarrow> g (xs ! i) = Some (ys ! i)) \<Longrightarrow>
     those (map g xs) = Some ys"
proof (induction xs arbitrary: ys)
  case Nil
  then show ?case by simp
next
  case (Cons x xs)
  then obtain y ys' where ys: "ys = y # ys'"
    by (cases ys) auto
  have "g x = Some y"
    using Cons.prems(2) [of 0] ys by simp
  moreover have "those (map g xs) = Some ys'"
  proof (rule Cons.IH)
    show "length ys' = length xs"
      using Cons.prems(1) ys by simp
    show "g (xs ! i) = Some (ys' ! i)" if "i < length xs" for i
      using Cons.prems(2) [of "Suc i"] that ys by simp
  qed
  ultimately show ?case
    using ys by simp
qed

lemma stmts_of_new:
  assumes "those (map (expr_of h) trefs) = Some es" "value_of h vref = Some x"
  shows "those (map (stmt_of (h @ map (\<lambda>t. Assign_obj [t] vref) trefs))
            [length h ..< length h + length trefs]) =
         Some (map (\<lambda>target. Assign [target] x) es)"
proof (rule those_map_eqI)
  show "length (map (\<lambda>target. Assign [target] x) es) = length [length h..<length h + length trefs]"
    using those_map_length [OF assms(1)] by simp
next
  fix i
  assume "i < length [length h..<length h + length trefs]"
  then have i: "i < length trefs"
    by simp
  then have "i < length es"
    using those_map_length [OF assms(1)] by simp
  then show "stmt_of (h @ map (\<lambda>t. Assign_obj [t] vref) trefs) ([length h..<length h + length trefs] ! i) =
        Some (map (\<lambda>target. Assign [target] x) es ! i)"
    using stmt_of_new [OF assms i] i by simp
qed

text \<open>
  C5. An \<^verbatim>\<open>Assign\<close> with more than one target is rewritten to one \<^verbatim>\<open>Assign\<close> per target, in
  the order of the targets, each with that one target and the value of the original. On
  the store the rule allocates exactly these objects behind the existing ones and
  nothing else: every new \<^verbatim>\<open>Assign\<close> holds in its \<^verbatim>\<open>value\<close> field the reference that the
  original held, so all of them share the one value object and no copy of it is made;
  read back as trees, the new objects are the statements of the tree-level result. An
  \<^verbatim>\<open>Assign\<close> with exactly one target is not rewritten by the rule: the result is the one
  node that the default traversal of its children returns, which is the node itself
  wherever the traversal leaves the target and the value as they are.
\<close>

theorem visit_Assign_split:
  "(1 < length targets \<longrightarrow>
      visit_stmt self (Assign targets v) =
        Inr (NodeList (map (\<lambda>target. Assign [target] v) targets)))
   \<and> (node < length h \<and> h ! node = Assign_obj trefs vref \<and> 1 < length trefs \<longrightarrow>
        visit_Assign_store h node =
          Some ([length h ..< length h + length trefs],
                h @ map (\<lambda>target. Assign_obj [target] vref) trefs)
        \<and> (\<forall>es x. those (map (expr_of h) trefs) = Some es \<and> value_of h vref = Some x \<longrightarrow>
              those (map (stmt_of (h @ map (\<lambda>target. Assign_obj [target] vref) trefs))
                 [length h ..< length h + length trefs]) =
              Some (map (\<lambda>target. Assign [target] x) es)))
   \<and> visit_stmt self (Assign [t] v) =
        then_do (generic_visit_stmt self (Assign [t] v)) (\<lambda>node. Inr (OneNode node))
   \<and> (visit_expr self t = Inr t \<and> (\<forall>x. v = Some x \<longrightarrow> visit_expr self x = Inr x) \<longrightarrow>
        visit_stmt self (Assign [t] v) = Inr (OneNode (Assign [t] v)))"
proof (intro conjI impI allI)
  assume "1 < length targets"
  then show "visit_stmt self (Assign targets v) =
      Inr (NodeList (map (\<lambda>target. Assign [target] v) targets))"
    by (simp add: assign_stmts_def)
next
  assume "node < length h \<and> h ! node = Assign_obj trefs vref \<and> 1 < length trefs"
  then show "visit_Assign_store h node =
      Some ([length h ..< length h + length trefs],
            h @ map (\<lambda>target. Assign_obj [target] vref) trefs)"
    by (simp add: visit_Assign_store_def split_targets_closed)
next
  fix es x
  assume "those (map (expr_of h) trefs) = Some es \<and> value_of h vref = Some x"
  then show "those (map (stmt_of (h @ map (\<lambda>target. Assign_obj [target] vref) trefs))
        [length h ..< length h + length trefs]) =
      Some (map (\<lambda>target. Assign [target] x) es)"
    using stmts_of_new by blast
next
  show "visit_stmt self (Assign [t] v) =
      then_do (generic_visit_stmt self (Assign [t] v)) (\<lambda>node. Inr (OneNode node))"
    by simp
next
  assume "visit_expr self t = Inr t \<and> (\<forall>x. v = Some x \<longrightarrow> visit_expr self x = Inr x)"
  then show "visit_stmt self (Assign [t] v) = Inr (OneNode (Assign [t] v))"
    by (cases v) simp_all
qed

theorem visit_Assign_split_witness:
  "1 < length [Name ''x'' Store, Name ''y'' Store]
   \<and> visit_stmt init (Assign [Name ''x'' Store, Name ''y'' Store] (Some (Constant (VInt 1)))) =
       Inr (NodeList [Assign [Name ''x'' Store] (Some (Constant (VInt 1))),
                      Assign [Name ''y'' Store] (Some (Constant (VInt 1)))])
   \<and> visit_Assign_store
        [Expr_obj (Name ''x'' Store), Expr_obj (Name ''y'' Store), Expr_obj (Constant (VInt 1)),
         Assign_obj [0, 1] 2] 3 =
       Some ([4, 5],
        [Expr_obj (Name ''x'' Store), Expr_obj (Name ''y'' Store), Expr_obj (Constant (VInt 1)),
         Assign_obj [0, 1] 2, Assign_obj [0] 2, Assign_obj [1] 2])
   \<and> those (map (stmt_of
        [Expr_obj (Name ''x'' Store), Expr_obj (Name ''y'' Store), Expr_obj (Constant (VInt 1)),
         Assign_obj [0, 1] 2, Assign_obj [0] 2, Assign_obj [1] 2]) [4, 5]) =
       Some [Assign [Name ''x'' Store] (Some (Constant (VInt 1))),
             Assign [Name ''y'' Store] (Some (Constant (VInt 1)))]
   \<and> visit_expr init (Name ''x'' Store) = Inr (Name ''x'' Store)
   \<and> visit_expr init (Constant (VInt 1)) = Inr (Constant (VInt 1))
   \<and> visit_stmt init (Assign [Name ''x'' Store] (Some (Constant (VInt 1)))) =
       Inr (OneNode (Assign [Name ''x'' Store] (Some (Constant (VInt 1)))))"
  using visit_Assign_split [of "[Name ''x'' Store, Name ''y'' Store]" init "Some (Constant (VInt 1))" 3
      "[Expr_obj (Name ''x'' Store), Expr_obj (Name ''y'' Store), Expr_obj (Constant (VInt 1)),
         Assign_obj [0, 1] 2]" "[0, 1]" 2 "Name ''x'' Store"]
  by (simp add: expr_of_def value_of_def stmt_of_def upt_rec)

section \<open>Conditionals\<close>

text \<open>
  C2. An \<^verbatim>\<open>If\<close> with an empty \<^verbatim>\<open>orelse\<close> is returned as it is, and so is one whose
  \<^verbatim>\<open>orelse\<close> holds a single \<^verbatim>\<open>If\<close> (an \<^verbatim>\<open>elif\<close>). For the \<^verbatim>\<open>orelse\<close> of a plain \<^verbatim>\<open>else\<close>
  block the rule returns no chain: its first statement, an expression statement or an
  assignment, has no \<^verbatim>\<open>test\<close> to build an \<^verbatim>\<open>If\<close> from, and the rule raises
  \<^verbatim>\<open>AttributeError\<close>. Where an \<^verbatim>\<open>If\<close> entry that has an \<^verbatim>\<open>orelse\<close> of its own is followed by
  another \<^verbatim>\<open>If\<close> entry, the second is appended to that \<^verbatim>\<open>orelse\<close>: the link from the first
  entry is a list of two or more entries, not of one.
\<close>

theorem visit_If_else_block:
  "visit_stmt self (If' t b []) = Inr (OneNode (If' t b []))
   \<and> visit_stmt self (If' t b [If' t1 b1 e1]) = Inr (OneNode (If' t b [If' t1 b1 e1]))
   \<and> visit_stmt self (If' t b (Expr x # rest)) = Inl AttributeError
   \<and> visit_stmt self (If' t b (Assign ts v # rest)) = Inl AttributeError
   \<and> visit_stmt self (If' t b [If' t1 b1 (s # ss), If' t2 b2 e2]) =
       Inr (OneNode (If' t b [If' t1 b1 (s # ss @ [If' t2 b2 e2])]))
   \<and> visit_stmt init (If' (Name ''a'' Load) [Expr (Name ''x'' Load)] [Expr (Name ''y'' Load)]) =
       Inl AttributeError"
  by (simp add: visit_If_def)

section \<open>Visiting an expression twice\<close>

text \<open>
  The program updates an expression node in place and returns the same object, and the
  multi-target branch of \<^verbatim>\<open>visit_Assign\<close> makes several statements hold one expression
  object. When a later traversal reaches such an object once per holder, every visit
  after the first meets the object as the first visit left it. On trees this is a visit
  of the result of a visit, and it changes nothing: the traversal of expressions reaches
  a fixed point in one step. So traversing each holder's tree on its own, as the model
  does, gives every holder the tree that the shared object ends with.
\<close>

lemma visit_exprs_twice:
  assumes "\<forall>x\<in>set es. \<forall>x'. visit_expr self x = Inr x' \<longrightarrow> visit_expr self x' = Inr x'"
    and "visit_exprs self es = Inr es'"
  shows "visit_exprs self es' = Inr es'"
  using assms
proof (induction es arbitrary: es')
  case Nil
  then show ?case by simp
next
  case (Cons e es)
  from Cons.prems(2) obtain x xs where x: "visit_expr self e = Inr x" "visit_exprs self es = Inr xs"
      "es' = x # xs"
    by (auto simp: then_do_eq_Inr)
  have "e \<in> set (e # es)"
    by simp
  from Cons.prems(1) [rule_format, OF this x(1)]
  have 1: "visit_expr self x = Inr x" .
  have "\<forall>y\<in>set es. \<forall>y'. visit_expr self y = Inr y' \<longrightarrow> visit_expr self y' = Inr y'"
    using Cons.prems(1) by (meson list.set_intros(2))
  from Cons.IH [OF this x(2)]
  have 2: "visit_exprs self xs = Inr xs" .
  show ?case
    unfolding x(3) using 1 2 by simp
qed


lemma visit_Call_generic:
  assumes "visit_expr self (Call f args kws) = Inr e'"
  shows "\<exists>f0. generic_visit_expr self (Call f0 args kws) = Inr e'
     \<and> (f0 = f \<or> (\<exists>n c. f0 = Name n c)) \<and> (\<forall>c. f0 \<noteq> Name ''len'' c)"
proof (cases "\<exists>c. f = Name ''len'' c")
  case True
  then obtain c where f: "f = Name ''len'' c"
    by auto
  with assms obtain a as where args: "args = a # as"
    by (cases args) simp_all
  show ?thesis
  proof (cases "isinstance_Str a")
    case True
    then have "generic_visit_expr self (Call (Name ''string.len'' c) args kws) = Inr e'"
      using assms unfolding f args by (simp del: generic_visit_expr.simps)
    then show ?thesis
      by (intro exI [of _ "Name ''string.len'' c"]) simp
  next
    case False
    then have "generic_visit_expr self (Call (Name ''table.getn'' c) args kws) = Inr e'"
      using assms unfolding f args by (simp del: generic_visit_expr.simps)
    then show ?thesis
      by (intro exI [of _ "Name ''table.getn'' c"]) simp
  qed
next
  case False
  then have "generic_visit_expr self (Call f args kws) = Inr e'"
    using assms by (cases f) (simp_all del: generic_visit_expr.simps)
  then show ?thesis
    using False by (intro exI [of _ f]) simp
qed

lemma visit_expr_Name:
  "visit_expr self e = Inr (Name n c) \<Longrightarrow> e = Name n c"
proof (cases e)
  case (BinOp l op r)
  assume "visit_expr self e = Inr (Name n c)"
  then show ?thesis
    unfolding BinOp by (auto simp: then_do_eq_Inr)
next
  case (UnaryOp op x)
  assume "visit_expr self e = Inr (Name n c)"
  then show ?thesis
    unfolding UnaryOp by (auto simp: then_do_eq_Inr)
next
  case (Compare l ops cs)
  assume "visit_expr self e = Inr (Name n c)"
  then show ?thesis
    unfolding Compare by (cases ops) (auto simp: then_do_eq_Inr)
next
  case (Call f args kws)
  assume "visit_expr self e = Inr (Name n c)"
  then have "\<exists>f0. generic_visit_expr self (Call f0 args kws) = Inr (Name n c)"
    unfolding Call using visit_Call_generic by blast
  then show ?thesis
    by (auto simp: then_do_eq_Inr)
next
  case (Constant v)
  assume "visit_expr self e = Inr (Name n c)"
  then show ?thesis
    unfolding Constant by (cases v) (auto simp: then_do_eq_Inr)
next
  case (Name m d)
  assume "visit_expr self e = Inr (Name n c)"
  then show ?thesis
    unfolding Name by simp
next
  case (Tuple es d)
  assume "visit_expr self e = Inr (Name n c)"
  then show ?thesis
    unfolding Tuple by (auto simp: then_do_eq_Inr)
qed

lemma visit_keywords_twice:
  assumes "\<forall>kw\<in>set ks. \<forall>k x x'. kw = Keyword k x \<longrightarrow> visit_expr self x = Inr x' \<longrightarrow> visit_expr self x' = Inr x'"
    and "visit_keywords self ks = Inr ks'"
  shows "visit_keywords self ks' = Inr ks'"
  using assms
proof (induction ks arbitrary: ks')
  case Nil
  then show ?case by simp
next
  case (Cons kw ks)
  obtain k e where kw: "kw = Keyword k e"
    by (cases kw)
  from Cons.prems(2) obtain x xs where x: "visit_expr self e = Inr x" "visit_keywords self ks = Inr xs"
      "ks' = Keyword k x # xs"
    unfolding kw by (auto simp: then_do_eq_Inr)
  have "kw \<in> set (kw # ks)"
    by simp
  from Cons.prems(1) [rule_format, OF this kw x(1)]
  have 1: "visit_expr self x = Inr x" .
  have "\<forall>kw\<in>set ks. \<forall>k x x'. kw = Keyword k x \<longrightarrow> visit_expr self x = Inr x' \<longrightarrow> visit_expr self x' = Inr x'"
    using Cons.prems(1) by (meson list.set_intros(2))
  from Cons.IH [OF this x(2)]
  have 2: "visit_keywords self xs = Inr xs" .
  show ?case
    unfolding x(3) using 1 2 by simp
qed

lemma visit_expr_twice:
  "\<forall>e'. visit_expr self e = Inr e' \<longrightarrow> visit_expr self e' = Inr e'"
proof (induction e rule: expr.induct [where
      ?P2.0 = "\<lambda>kw. \<forall>k x x'. kw = Keyword k x \<longrightarrow> visit_expr self x = Inr x' \<longrightarrow> visit_expr self x' = Inr x'"
      and ?P3.0 = "\<lambda>v. \<forall>x x'. v = VNode x \<longrightarrow> visit_expr self x = Inr x' \<longrightarrow> visit_expr self x' = Inr x'"])
  case (BinOp l op r)
  show ?case
  proof (intro allI impI)
    fix e'
    assume "visit_expr self (BinOp l op r) = Inr e'"
    then obtain l' r' where v: "visit_expr self l = Inr l'" "visit_expr self r = Inr r'"
        "e' = BinOp l' (if op = FloorDiv then Div else op) r'"
      by (auto simp: then_do_eq_Inr)
    have "visit_expr self l' = Inr l'" "visit_expr self r' = Inr r'"
      using BinOp(1) [rule_format, OF v(1)] BinOp(2) [rule_format, OF v(2)] .
    then show "visit_expr self e' = Inr e'"
      unfolding v(3) by simp
  qed
next
  case (UnaryOp op e)
  show ?case
  proof (intro allI impI)
    fix e'
    assume "visit_expr self (UnaryOp op e) = Inr e'"
    then obtain x where v: "visit_expr self e = Inr x" "e' = UnaryOp op x"
      by (auto simp: then_do_eq_Inr)
    have "visit_expr self x = Inr x"
      using UnaryOp [rule_format, OF v(1)] .
    then show "visit_expr self e' = Inr e'"
      unfolding v(2) by simp
  qed
next
  case (Compare l ops cs)
  show ?case
  proof (intro allI impI)
    fix e'
    assume a: "visit_expr self (Compare l ops cs) = Inr e'"
    then obtain op0 rest where ops: "ops = op0 # rest"
      by (cases ops) simp_all
    from a obtain l' cs' where v: "visit_expr self l = Inr l'" "visit_exprs self cs = Inr cs'"
        "e' = Compare l' ((if op0 = In then Eq else op0) # rest) cs'"
      unfolding ops by (auto simp: then_do_eq_Inr)
    have "visit_expr self l' = Inr l'"
      using Compare(1) [rule_format, OF v(1)] .
    moreover have "\<forall>x\<in>set cs. \<forall>x'. visit_expr self x = Inr x' \<longrightarrow> visit_expr self x' = Inr x'"
      using Compare(2) by blast
    from visit_exprs_twice [OF this v(2)]
    have "visit_exprs self cs' = Inr cs'" .
    ultimately show "visit_expr self e' = Inr e'"
      unfolding v(3) by simp
  qed
next
  case (Call f args kws)
  show ?case
  proof (intro allI impI)
    fix e'
    assume a: "visit_expr self (Call f args kws) = Inr e'"
    from visit_Call_generic [OF this]
    obtain f0 where g: "generic_visit_expr self (Call f0 args kws) = Inr e'"
      and f0: "f0 = f \<or> (\<exists>n c. f0 = Name n c)"
      and nl: "\<forall>c. f0 \<noteq> Name ''len'' c"
      by blast
    from g obtain f' args' kws' where v: "visit_expr self f0 = Inr f'" "visit_exprs self args = Inr args'"
        "visit_keywords self kws = Inr kws'" "e' = Call f' args' kws'"
      by (auto simp: then_do_eq_Inr)
    have 1: "visit_expr self f' = Inr f'"
    proof (cases "f0 = f")
      case True
      then show ?thesis
        using Call(1) [rule_format, of f'] v(1) by simp
    next
      case False
      then obtain n c where "f0 = Name n c"
        using f0 by auto
      then show ?thesis
        using v(1) by auto
    qed
    have "\<forall>x\<in>set args. \<forall>x'. visit_expr self x = Inr x' \<longrightarrow> visit_expr self x' = Inr x'"
      using Call(2) by blast
    from visit_exprs_twice [OF this v(2)]
    have 2: "visit_exprs self args' = Inr args'" .
    have "\<forall>kw\<in>set kws. \<forall>k x x'. kw = Keyword k x \<longrightarrow> visit_expr self x = Inr x' \<longrightarrow> visit_expr self x' = Inr x'"
      using Call(3) by blast
    from visit_keywords_twice [OF this v(3)]
    have 3: "visit_keywords self kws' = Inr kws'" .
    have 4: "\<forall>c. f' \<noteq> Name ''len'' c"
      using nl v(1) visit_expr_Name by blast
    show "visit_expr self e' = Inr e'"
      unfolding v(4) using 1 2 3 4 by (cases f') simp_all
  qed
next
  case (Constant v)
  show ?case
  proof (intro allI impI)
    fix e'
    assume a: "visit_expr self (Constant v) = Inr e'"
    show "visit_expr self e' = Inr e'"
    proof (cases v)
      case (VNode x)
      with a obtain x' where v': "visit_expr self x = Inr x'" "e' = Constant (VNode x')"
        by (auto simp: then_do_eq_Inr)
      have "visit_expr self x' = Inr x'"
        using Constant [rule_format, OF VNode v'(1)] .
      then show ?thesis
        unfolding v'(2) by simp
    qed (use a in auto)
  qed
next
  case (Name n c)
  show ?case
    by simp
next
  case (Tuple es c)
  show ?case
  proof (intro allI impI)
    fix e'
    assume "visit_expr self (Tuple es c) = Inr e'"
    then obtain es' where v: "visit_exprs self es = Inr es'" "e' = Tuple es' c"
      by (auto simp: then_do_eq_Inr)
    have "\<forall>x\<in>set es. \<forall>x'. visit_expr self x = Inr x' \<longrightarrow> visit_expr self x' = Inr x'"
      using Tuple by blast
    from visit_exprs_twice [OF this v(1)]
    have "visit_exprs self es' = Inr es'" .
    then show "visit_expr self e' = Inr e'"
      unfolding v(2) by simp
  qed
next
  case (Keyword k x)
  then show ?case
    by blast
next
  case (VNode x)
  then show ?case
    by blast
qed simp_all

section \<open>Running the traversal twice\<close>


lemma chain_keeps_class:
  assumes "chain cur es = Inr r"
  shows "r = cur \<or> (\<exists>l. r = set_orelse cur l)"
proof (cases es)
  case Nil
  then show ?thesis
    using assms by simp
next
  case (Cons e es')
  show ?thesis
  proof (cases "isinstance_If e")
    case True
    then show ?thesis
      using assms Cons by (auto simp: then_do_eq_Inr)
  next
    case False
    then obtain old t b where o: "get_orelse cur = Inr old" "get_test e = Inr t" "get_body e = Inr b"
      and r: "(case old of
             [] \<Rightarrow> then_do (chain (If' t b []) es') (\<lambda>new'. Inr (set_orelse cur [new']))
           | first # others \<Rightarrow>
               then_do (chain first es') (\<lambda>first'.
               Inr (set_orelse cur (first' # others @ [If' t b []])))) = Inr r"
      using assms Cons by (auto simp: then_do_eq_Inr)
    show ?thesis
      using r by (cases old) (auto simp: then_do_eq_Inr)
  qed
qed

lemma isinstance_If_set_orelse: "isinstance_If (set_orelse s l) = isinstance_If s"
  by (cases s) simp_all

lemma chain_isinstance_If:
  "chain cur es = Inr r \<Longrightarrow> isinstance_If cur \<Longrightarrow> isinstance_If r"
  using chain_keeps_class [of cur es r] by (auto simp: isinstance_If_set_orelse)

text \<open>The node that \<^verbatim>\<open>visit_If\<close> returns is returned as it is when it is visited again.\<close>

lemma visit_If_again:
  assumes "visit_If self t b orelse = Inr (OneNode r)"
  shows "visit_stmt self r = Inr (OneNode r)"
proof (cases orelse)
  case Nil
  then show ?thesis
    using assms by (auto simp: visit_If_def)
next
  case (Cons e es)
  then have c: "chain (If' t b []) (e # es) = Inr r"
    using assms by (auto simp: visit_If_def then_do_eq_Inr)
  show ?thesis
  proof (cases "isinstance_If e")
    case True
    then obtain e' where e': "chain e es = Inr e'" "r = If' t b [e']"
      using c by (auto simp: then_do_eq_Inr)
    have "isinstance_If e'"
      using chain_isinstance_If [OF e'(1) True] .
    then show ?thesis
      using e'(2) by (simp add: visit_If_def)
  next
    case False
    then obtain t' b' n where n: "chain (If' t' b' []) es = Inr n" "r = If' t b [n]"
      using c by (auto simp: then_do_eq_Inr)
    have "isinstance_If n"
      using chain_isinstance_If [OF n(1)] by simp
    then show ?thesis
      using n(2) by (simp add: visit_If_def)
  qed
qed

text \<open>
  C8. A second run of the traversal over the output of a first run is not a no-op. The
  first run leaves the body of a \<^verbatim>\<open>For\<close> and the value of a multi-target \<^verbatim>\<open>Assign\<close>
  unvisited; the second run meets them in a \<^verbatim>\<open>While\<close> and in single-target \<^verbatim>\<open>Assign\<close>s,
  which it does traverse, and rewrites them: the floor division of the loop body becomes
  a division and the call of \<^verbatim>\<open>len\<close> becomes a call of \<^verbatim>\<open>table.getn\<close>. (The value shared
  by the two \<^verbatim>\<open>Assign\<close>s is one object, updated in place when the first of them is
  visited; visiting it again for the second changes nothing more, which is what the
  traversal of two equal trees gives.) A chain of \<^verbatim>\<open>If\<close> nodes that the first run returned
  is returned again as it is.
\<close>

theorem second_run_rewrites:
  "visit_stmts init
     [For (Name ''i'' Store) (Call (Name ''range'' Load) [Constant (VInt 0), Constant (VInt 3)] [])
        [Expr (BinOp (Name ''a'' Load) FloorDiv (Name ''b'' Load))] []] =
     Inr [Assign [Name ''i'' Store] (Some (Constant (VNode (Constant (VInt 0))))),
          While (Compare (Name ''i'' Load) [Lt] [Constant (VNode (Constant (VInt 3)))])
            [Expr (BinOp (Name ''a'' Load) FloorDiv (Name ''b'' Load)),
             AugAssign (Name ''i'' Store) Add (Constant (VInt 1))] []]
   \<and> visit_stmts init
     [Assign [Name ''i'' Store] (Some (Constant (VNode (Constant (VInt 0))))),
      While (Compare (Name ''i'' Load) [Lt] [Constant (VNode (Constant (VInt 3)))])
        [Expr (BinOp (Name ''a'' Load) FloorDiv (Name ''b'' Load)),
         AugAssign (Name ''i'' Store) Add (Constant (VInt 1))] []] =
     Inr [Assign [Name ''i'' Store] (Some (Constant (VNode (Constant (VInt 0))))),
          While (Compare (Name ''i'' Load) [Lt] [Constant (VNode (Constant (VInt 3)))])
            [Expr (BinOp (Name ''a'' Load) Div (Name ''b'' Load)),
             AugAssign (Name ''i'' Store) Add (Constant (VInt 1))] []]
   \<and> visit_stmts init
     [Assign [Name ''x'' Store, Name ''y'' Store] (Some (Call (Name ''len'' Load) [Name ''s'' Load] []))] =
     Inr [Assign [Name ''x'' Store] (Some (Call (Name ''len'' Load) [Name ''s'' Load] [])),
          Assign [Name ''y'' Store] (Some (Call (Name ''len'' Load) [Name ''s'' Load] []))]
   \<and> visit_stmts init
     [Assign [Name ''x'' Store] (Some (Call (Name ''len'' Load) [Name ''s'' Load] [])),
      Assign [Name ''y'' Store] (Some (Call (Name ''len'' Load) [Name ''s'' Load] []))] =
     Inr [Assign [Name ''x'' Store] (Some (Call (Name ''table.getn'' Load) [Name ''s'' Load] [])),
          Assign [Name ''y'' Store] (Some (Call (Name ''table.getn'' Load) [Name ''s'' Load] []))]
   \<and> visit_stmts init [If' (Name ''a'' Load) [Pass] [While (Name ''b'' Load) [Pass] []]] =
     Inr [If' (Name ''a'' Load) [Pass] [If' (Name ''b'' Load) [Pass] []]]
   \<and> visit_stmts init [If' (Name ''a'' Load) [Pass] [If' (Name ''b'' Load) [Pass] []]] =
     Inr [If' (Name ''a'' Load) [Pass] [If' (Name ''b'' Load) [Pass] []]]"
  by (simp add: visit_For_def visit_If_def index_def assign_stmts_def)

section \<open>Errors at the entry point\<close>












end
